theory Spec2Isabelle
  imports Main
begin

section \<open>JavaScript values that reach the danmaku filter route\<close>

text \<open>
  The body of a POST is whatever \<^verbatim>\<open>request.json()\<close> parsed: a JSON value. The
  type \<open>'n\<close> stands for the ECMAScript Number values; the two facts the route needs
  about a number (whether it is falsy, that is \<open>+0\<close>, \<open>-0\<close> or \<open>NaN\<close>, and its
  rendering by \<^verbatim>\<open>Number.prototype.toString\<close>) are the fields of \<open>numops\<close>.
  An object is the list of its own properties. The value \<^verbatim>\<open>undefined\<close>, which no
  JSON text denotes and which a property read yields for a missing property, is
  \<open>None\<close> of \<open>'n json option\<close>.
\<close>

datatype 'n json =
    JNull
  | JBool bool
  | JNum 'n
  | JStr string
  | JArr "'n json list"
  | JObj "(string \<times> 'n json) list"

record 'n numops =
  nfalsy :: "'n \<Rightarrow> bool"
  nstr :: "'n \<Rightarrow> string"

text \<open>The result of a call that may throw.\<close>

datatype 'a outcome = Throws | Returns 'a

text \<open>\<^verbatim>\<open>ToBoolean\<close>: the falsy values are undefined, null, false, the falsy numbers
  and the empty string; every array and object is truthy.\<close>

fun truthy :: "'n numops \<Rightarrow> 'n json option \<Rightarrow> bool" where
  "truthy ops None = False"
| "truthy ops (Some JNull) = False"
| "truthy ops (Some (JBool b)) = b"
| "truthy ops (Some (JNum n)) = (\<not> nfalsy ops n)"
| "truthy ops (Some (JStr s)) = (s \<noteq> [])"
| "truthy ops (Some (JArr xs)) = True"
| "truthy ops (Some (JObj kvs)) = True"

text \<open>\<^verbatim>\<open>a || b\<close>.\<close>

definition js_or :: "'n numops \<Rightarrow> 'n json option \<Rightarrow> 'n json option \<Rightarrow> 'n json option" where
  "js_or ops a b = (if truthy ops a then a else b)"

text \<open>
  A property read \<^verbatim>\<open>v.name\<close> for one of the names the route reads (\<^verbatim>\<open>rules\<close>,
  \<^verbatim>\<open>keyword\<close>, \<^verbatim>\<open>type\<close>, \<^verbatim>\<open>enabled\<close>, \<^verbatim>\<open>id\<close>): on undefined and on null it
  throws a TypeError; on an object it is the own property, or undefined; on a boolean,
  number, string or array it is undefined, since no prototype defines these names.
\<close>

fun get_prop :: "'n json option \<Rightarrow> string \<Rightarrow> 'n json option outcome" where
  "get_prop None name = Throws"
| "get_prop (Some JNull) name = Throws"
| "get_prop (Some (JObj kvs)) name = Returns (map_of kvs name)"
| "get_prop (Some v) name = Returns None"

text \<open>
  \<^verbatim>\<open>String(v)\<close>. A boolean, a number and a string convert as usual. An array converts
  through \<^verbatim>\<open>Array.prototype.join\<close>: the elements' conversions separated by commas,
  where a null element gives the empty string. An object parsed from JSON converts to
  \<^verbatim>\<open>[object Object]\<close>, unless it has an own property \<^verbatim>\<open>toString\<close>: that property
  is not callable, \<^verbatim>\<open>valueOf\<close> does not give a primitive either, and the conversion
  throws a TypeError (\<open>None\<close>).
\<close>

fun js_String :: "'n numops \<Rightarrow> 'n json \<Rightarrow> string option"
  and js_join :: "'n numops \<Rightarrow> 'n json list \<Rightarrow> string option" where
  "js_String ops JNull = Some ''null''"
| "js_String ops (JBool b) = Some (if b then ''true'' else ''false'')"
| "js_String ops (JNum n) = Some (nstr ops n)"
| "js_String ops (JStr s) = Some s"
| "js_String ops (JArr xs) = js_join ops xs"
| "js_String ops (JObj kvs) =
     (if ''toString'' \<in> fst ` set kvs then None else Some ''[object Object]'')"
| "js_join ops [] = Some []"
| "js_join ops (x # xs) =
     (case (if x = JNull then Some [] else js_String ops x) of
        None \<Rightarrow> None
      | Some s \<Rightarrow>
          (if xs = [] then Some s
           else (case js_join ops xs of None \<Rightarrow> None | Some t \<Rightarrow> Some (s @ '','' @ t))))"

section \<open>The danmaku filter configuration and its store\<close>

text \<open>
  The object literal that the POST handler builds for each rule has exactly the four
  properties below. The keyword is a string, the type one of two strings and enabled
  a boolean; \<open>rid\<close> (the property \<^verbatim>\<open>id\<close>) is whatever truthy value the input carried,
  or undefined.
\<close>

record 'n filter_rule =
  keyword :: string
  rtype :: string
  enabled :: bool
  rid :: "'n json option"

record 'n filter_config =
  rules :: "'n filter_rule list"

text \<open>
  Modelled from the spec: the key-value configuration store behind \<^verbatim>\<open>db\<close>, whose code
  is not part of the sources. It exposes \<^verbatim>\<open>getDanmakuFilterConfig(username)\<close>, giving
  the stored configuration or null, and \<^verbatim>\<open>setDanmakuFilterConfig(username, config)\<close>,
  replacing it; either may fail with a storage error, which is the flag \<open>broken\<close>.
\<close>

record 'n db =
  configs :: "string \<rightharpoonup> 'n filter_config"
  broken :: bool

datatype 'n db_call =
    GetCall string
  | SetCall string "'n filter_config"

definition getDanmakuFilterConfig :: "'n db \<Rightarrow> string \<Rightarrow> 'n filter_config option outcome" where
  "getDanmakuFilterConfig d name = (if broken d then Throws else Returns (configs d name))"

definition setDanmakuFilterConfig :: "'n db \<Rightarrow> string \<Rightarrow> 'n filter_config \<Rightarrow> 'n db outcome" where
  "setDanmakuFilterConfig d name c =
     (if broken d then Throws else Returns (d\<lparr>configs := (configs d)(name \<mapsto> c)\<rparr>))"

section \<open>The route handlers\<close>

text \<open>
  The messages of the error bodies, which the source writes in Chinese: not logged in,
  user does not exist, user is banned, malformed configuration, and the two generic
  messages of the catch blocks (loading failed, saving failed).
\<close>

datatype err_msg =
    NotLoggedIn
  | UserNotFound
  | UserBanned
  | BadConfigFormat
  | GetFailed
  | SaveFailed

datatype 'n resp_body =
    ErrorBody err_msg
  | ConfigBody "'n filter_config"
  | SuccessBody

record 'n response =
  status :: nat
  body :: "'n resp_body"

text \<open>\<^verbatim>\<open>NextResponse.json(b, {status})\<close>; the status is 200 when none is given.\<close>

definition json_response :: "nat \<Rightarrow> 'n resp_body \<Rightarrow> 'n response" where
  "json_response s b = \<lparr>status = s, body = b\<rparr>"

record auth_info =
  auth_username :: "string option"

record user =
  username :: string
  banned :: bool

record admin_config =
  Users :: "user list"

text \<open>
  What one request meets: the result of \<^verbatim>\<open>getAuthInfoFromCookie(request)\<close> (null when
  there is no session), of \<^verbatim>\<open>getConfig()\<close>, the environment variable
  \<^verbatim>\<open>ADMIN_USERNAME\<close> (which may be unset) and, for a POST, the result of
  \<^verbatim>\<open>request.json()\<close>, which throws when the body is not JSON text. The handler
  gives the parsed body the type \<^verbatim>\<open>any\<close>; the value undefined is admitted here too,
  so that the handler's check of a missing body has an input.
\<close>

record 'n request =
  getAuthInfoFromCookie :: "auth_info option outcome"
  getConfig :: "admin_config outcome"
  ADMIN_USERNAME :: "string option"
  request_json :: "'n json option outcome"

text \<open>A handler returns its response, the store it leaves and the store calls it made.\<close>

type_synonym 'n handled = "'n response \<times> 'n db \<times> 'n db_call list"

text \<open>Lines 33 to 41 of the route: the part of GET after the authorization.\<close>

definition GET_load :: "string \<Rightarrow> 'n db \<Rightarrow> 'n handled" where
  "GET_load name d =
     (case getDanmakuFilterConfig d name of
        Throws \<Rightarrow> (json_response 500 (ErrorBody GetFailed), d, [GetCall name])
      | Returns filterConfig \<Rightarrow>
          (case filterConfig of
             None \<Rightarrow> (json_response 200 (ConfigBody \<lparr>rules = []\<rparr>), d, [GetCall name])
           | Some c \<Rightarrow> (json_response 200 (ConfigBody c), d, [GetCall name])))"

definition GET :: "'n request \<Rightarrow> 'n db \<Rightarrow> 'n handled" where
  "GET request d =
     (case getAuthInfoFromCookie request of
        Throws \<Rightarrow> (json_response 500 (ErrorBody GetFailed), d, [])
      | Returns authInfo \<Rightarrow>
          (case authInfo of
             None \<Rightarrow> (json_response 401 (ErrorBody NotLoggedIn), d, [])
           | Some a \<Rightarrow>
               (case auth_username a of
                  None \<Rightarrow> (json_response 401 (ErrorBody NotLoggedIn), d, [])
                | Some name \<Rightarrow>
                    if name = [] then (json_response 401 (ErrorBody NotLoggedIn), d, [])
                    else
                      (case getConfig request of
                         Throws \<Rightarrow> (json_response 500 (ErrorBody GetFailed), d, [])
                       | Returns config \<Rightarrow>
                           if Some name \<noteq> ADMIN_USERNAME request then
                             (case find (\<lambda>u. username u = name) (Users config) of
                                None \<Rightarrow> (json_response 401 (ErrorBody UserNotFound), d, [])
                              | Some usr \<Rightarrow>
                                  if banned usr
                                  then (json_response 401 (ErrorBody UserBanned), d, [])
                                  else GET_load name d)
                           else GET_load name d))))"

text \<open>Sequencing of calls that may throw: the first throw ends the evaluation.\<close>

definition and_then :: "'a outcome \<Rightarrow> ('a \<Rightarrow> 'b outcome) \<Rightarrow> 'b outcome" where
  "and_then r f = (case r of Throws \<Rightarrow> Throws | Returns x \<Rightarrow> f x)"

text \<open>\<^verbatim>\<open>String(v)\<close> for a value that may be undefined.\<close>

definition js_String_value :: "'n numops \<Rightarrow> 'n json option \<Rightarrow> string outcome" where
  "js_String_value ops v =
     (case v of
        None \<Rightarrow> Returns ''undefined''
      | Some w \<Rightarrow> (case js_String ops w of None \<Rightarrow> Throws | Some s \<Rightarrow> Returns s))"

text \<open>
  Lines 80 to 85: the function mapped over \<^verbatim>\<open>config.rules\<close>. The properties of the
  literal are evaluated in the order written; the first read of \<^verbatim>\<open>rule.keyword\<close>
  throws when the rule is null.
\<close>

definition validate_rule :: "'n numops \<Rightarrow> 'n json \<Rightarrow> 'n filter_rule outcome" where
  "validate_rule ops rule =
     and_then (get_prop (Some rule) ''keyword'') (\<lambda>kw.
     and_then (js_String_value ops (js_or ops kw (Some (JStr [])))) (\<lambda>k.
     and_then (get_prop (Some rule) ''type'') (\<lambda>t.
     and_then (get_prop (Some rule) ''enabled'') (\<lambda>e.
     and_then (get_prop (Some rule) ''id'') (\<lambda>i.
       Returns \<lparr>keyword = k,
                rtype = (if t = Some (JStr ''regex'') \<or> t = Some (JStr ''normal'')
                         then (case t of Some (JStr s) \<Rightarrow> s | _ \<Rightarrow> ''normal'')
                         else ''normal''),
                enabled = truthy ops e,
                rid = js_or ops i None\<rparr>)))))"

text \<open>\<^verbatim>\<open>Array.prototype.map\<close> with a callback that may throw.\<close>

fun map_outcome :: "('a \<Rightarrow> 'b outcome) \<Rightarrow> 'a list \<Rightarrow> 'b list outcome" where
  "map_outcome f [] = Returns []"
| "map_outcome f (x # xs) =
     (case f x of
        Throws \<Rightarrow> Throws
      | Returns y \<Rightarrow> (case map_outcome f xs of Throws \<Rightarrow> Throws | Returns ys \<Rightarrow> Returns (y # ys)))"

text \<open>Lines 72 to 93 of the route: the part of POST after the authorization.\<close>

definition POST_save :: "'n numops \<Rightarrow> 'n request \<Rightarrow> string \<Rightarrow> 'n db \<Rightarrow> 'n handled" where
  "POST_save ops request name d =
     (case request_json request of
        Throws \<Rightarrow> (json_response 500 (ErrorBody SaveFailed), d, [])
      | Returns config \<Rightarrow>
          if \<not> truthy ops config then (json_response 400 (ErrorBody BadConfigFormat), d, [])
          else
            (case get_prop config ''rules'' of
               Throws \<Rightarrow> (json_response 500 (ErrorBody SaveFailed), d, [])
             | Returns r \<Rightarrow>
                 (case r of
                    Some (JArr rs) \<Rightarrow>
                      (case map_outcome (validate_rule ops) rs of
                         Throws \<Rightarrow> (json_response 500 (ErrorBody SaveFailed), d, [])
                       | Returns validatedRules \<Rightarrow>
                           (case setDanmakuFilterConfig d name \<lparr>rules = validatedRules\<rparr> of
                              Throws \<Rightarrow>
                                (json_response 500 (ErrorBody SaveFailed), d,
                                 [SetCall name \<lparr>rules = validatedRules\<rparr>])
                            | Returns d' \<Rightarrow>
                                (json_response 200 SuccessBody, d',
                                 [SetCall name \<lparr>rules = validatedRules\<rparr>])))
                  | _ \<Rightarrow> (json_response 400 (ErrorBody BadConfigFormat), d, []))))"

definition POST :: "'n numops \<Rightarrow> 'n request \<Rightarrow> 'n db \<Rightarrow> 'n handled" where
  "POST ops request d =
     (case getAuthInfoFromCookie request of
        Throws \<Rightarrow> (json_response 500 (ErrorBody SaveFailed), d, [])
      | Returns authInfo \<Rightarrow>
          (case authInfo of
             None \<Rightarrow> (json_response 401 (ErrorBody NotLoggedIn), d, [])
           | Some a \<Rightarrow>
               (case auth_username a of
                  None \<Rightarrow> (json_response 401 (ErrorBody NotLoggedIn), d, [])
                | Some name \<Rightarrow>
                    if name = [] then (json_response 401 (ErrorBody NotLoggedIn), d, [])
                    else
                      (case getConfig request of
                         Throws \<Rightarrow> (json_response 500 (ErrorBody SaveFailed), d, [])
                       | Returns adminConfig \<Rightarrow>
                           if Some name \<noteq> ADMIN_USERNAME request then
                             (case find (\<lambda>u. username u = name) (Users adminConfig) of
                                None \<Rightarrow> (json_response 401 (ErrorBody UserNotFound), d, [])
                              | Some usr \<Rightarrow>
                                  if banned usr
                                  then (json_response 401 (ErrorBody UserBanned), d, [])
                                  else POST_save ops request name d)
                           else POST_save ops request name d))))"

text \<open>
  A rule as the handler built it, seen again as a value: an object with the
  properties of the literal. A property whose value is undefined reads as undefined
  and is left out of the list.
\<close>

definition rule_value :: "'n filter_rule \<Rightarrow> 'n json" where
  "rule_value r =
     JObj ([(''keyword'', JStr (keyword r)), (''type'', JStr (rtype r)),
            (''enabled'', JBool (enabled r))]
           @ (case rid r of None \<Rightarrow> [] | Some v \<Rightarrow> [(''id'', v)]))"

section \<open>The source parameter of the private library page\<close>

text \<open>\<^verbatim>\<open>s.split(c)\<close> for a one-character separator: never an empty array.\<close>

fun split_on :: "char \<Rightarrow> string \<Rightarrow> string list" where
  "split_on c [] = [] # []"
| "split_on c (x # xs) =
     (if x = c then [] # split_on c xs
      else (case split_on c xs of [] \<Rightarrow> [x] # [] | w # ws \<Rightarrow> (x # w) # ws))"

record parsed_source =
  parsed_sourceType :: string
  parsed_embyKey :: "string option"

text \<open>
  Lines 52 to 61. The argument is null (\<open>None\<close>) when the URL has no \<^verbatim>\<open>source\<close>
  parameter; the empty string is falsy as well. The destructuring
  \<^verbatim>\<open>[type, key] = sourceParam.split(':')\<close> takes the first two parts.
\<close>

definition parseSourceParam :: "string option \<Rightarrow> parsed_source" where
  "parseSourceParam sourceParam =
     (case sourceParam of
        None \<Rightarrow> \<lparr>parsed_sourceType = ''openlist'', parsed_embyKey = None\<rparr>
      | Some s \<Rightarrow>
          if s = [] then \<lparr>parsed_sourceType = ''openlist'', parsed_embyKey = None\<rparr>
          else if CHR '':'' \<in> set s then
            (case split_on CHR '':'' s of
               t # k # rest \<Rightarrow> \<lparr>parsed_sourceType = t, parsed_embyKey = Some k\<rparr>
             | [t] \<Rightarrow> \<lparr>parsed_sourceType = t, parsed_embyKey = None\<rparr>
             | [] \<Rightarrow> \<lparr>parsed_sourceType = [], parsed_embyKey = None\<rparr>)
          else \<lparr>parsed_sourceType = s, parsed_embyKey = None\<rparr>)"

record emby_source_option =
  option_key :: string
  option_name :: string

text \<open>
  Lines 137 to 142: the value the page gives the \<^verbatim>\<open>source\<close> parameter of its own
  URL, from the selected source type, the selected Emby key (undefined when none is
  selected) and the Emby sources on offer. Writing the value with
  \<^verbatim>\<open>URLSearchParams.set\<close> and reading it back with \<^verbatim>\<open>searchParams.get\<close> gives the
  same string, so the percent-encoding in between is left out.
\<close>

definition source_param :: "string \<Rightarrow> string option \<Rightarrow> emby_source_option list \<Rightarrow> string" where
  "source_param sourceType embyKey embySourceOptions =
     (case embyKey of
        None \<Rightarrow> sourceType
      | Some k \<Rightarrow>
          if sourceType = ''emby'' \<and> k \<noteq> [] \<and> length embySourceOptions > 1
          then ''emby:'' @ k
          else sourceType)"

section \<open>The list fetch of the private library page\<close>

record runtime_config =
  OPENLIST_ENABLED :: bool
  EMBY_ENABLED :: bool

text \<open>The values of one render that the effect closes over (its dependencies).\<close>

record fetch_params =
  sourceType :: string
  embyKey :: "string option"
  page :: int
  selectedView :: string

text \<open>
  The JSON object a list endpoint answers with: \<^verbatim>\<open>{list, page, totalPages, error}\<close>,
  each of them optional; \<open>'v\<close> is the type of a video summary.
\<close>

record 'v list_data =
  data_error :: "string option"
  data_list :: "'v list option"
  data_page :: "int option"
  data_totalPages :: "int option"

text \<open>
  How a request ends when its signal was not aborted: the network fails, the status
  is not ok, the body is not JSON text or is null (reading \<^verbatim>\<open>data.error\<close> then
  throws), or the data arrive.
\<close>

datatype 'v fetch_result =
    NetworkFailure
  | NotOk
  | BadBody
  | Data "'v list_data"

text \<open>
  The error banner: empty, a message of the server, or the page's own message
  (fetching the video list failed).
\<close>

datatype error_text =
    NoError
  | ServerError string
  | ListFetchFailed

text \<open>
  One call of \<^verbatim>\<open>fetchVideos\<close> that reached \<^verbatim>\<open>fetch\<close>: the \<^verbatim>\<open>isInitial\<close> and
  \<^verbatim>\<open>page\<close> of its closure, whether its AbortController has been aborted, and
  whether its promise has settled. The controllers are numbered in the order of
  their creation; \<^verbatim>\<open>abortControllerRef.current\<close> holds such a number, or null.
\<close>

record fetch_call =
  isInitial :: bool
  fetch_page :: int
  aborted :: bool
  settled :: bool

record 'v controller =
  videos :: "'v list"
  loading :: bool
  loadingMore :: bool
  error :: error_text
  hasMore :: bool
  isFetchingRef :: bool
  abortControllerRef :: "nat option"
  fetches :: "fetch_call list"

text \<open>The initial values of the state hooks and refs (lines 66 to 78).\<close>

definition initial :: "'v controller" where
  "initial = \<lparr>videos = [], loading = True, loadingMore = False, error = NoError,
              hasMore = True, isFetchingRef = False, abortControllerRef = None,
              fetches = []\<rparr>"

text \<open>\<^verbatim>\<open>abortControllerRef.current.abort()\<close> when the ref is not null.\<close>

definition abort_current :: "'v controller \<Rightarrow> 'v controller" where
  "abort_current st =
     (case abortControllerRef st of
        None \<Rightarrow> st
      | Some c \<Rightarrow>
          if c < length (fetches st)
          then st\<lparr>fetches := (fetches st)[c := (fetches st ! c)\<lparr>aborted := True\<rparr>]\<rparr>
          else st)"

text \<open>Lines 254 to 290: \<^verbatim>\<open>fetchVideos\<close> up to the point where it awaits the response.\<close>

definition fetchVideos :: "runtime_config \<Rightarrow> fetch_params \<Rightarrow> 'v controller \<Rightarrow> 'v controller" where
  "fetchVideos runtimeConfig p st0 =
     (let st = abort_current st0 in
      if sourceType p = ''openlist'' \<and> \<not> OPENLIST_ENABLED runtimeConfig
      then st\<lparr>loading := False\<rparr>
      else if sourceType p = ''emby'' \<and>
              (\<not> EMBY_ENABLED runtimeConfig \<or> embyKey p = None \<or> embyKey p = Some [])
      then st\<lparr>loading := False\<rparr>
      else
        st\<lparr>abortControllerRef := Some (length (fetches st)),
            isFetchingRef := True,
            fetches := fetches st @
              [\<lparr>isInitial = (page p = 1), fetch_page = page p, aborted = False, settled = False\<rparr>],
            loading := (if page p = 1 then True else loading st),
            loadingMore := (if page p = 1 then loadingMore st else True),
            error := NoError\<rparr>)"

text \<open>The \<^verbatim>\<open>finally\<close> block (lines 328 to 338): it updates the state only when the
  signal of the request is not aborted.\<close>

definition finish :: "fetch_call \<Rightarrow> 'v controller \<Rightarrow> 'v controller" where
  "finish f st =
     (if \<not> aborted f then
        (if isInitial f then st\<lparr>loading := False, isFetchingRef := False\<rparr>
         else st\<lparr>loadingMore := False, isFetchingRef := False\<rparr>)
      else st)"

text \<open>The \<^verbatim>\<open>catch\<close> block for an error other than an AbortError (lines 323 to 327).\<close>

definition fail :: "fetch_call \<Rightarrow> 'v controller \<Rightarrow> 'v controller" where
  "fail f st =
     (if isInitial f then st\<lparr>error := ListFetchFailed, videos := []\<rparr>
      else st\<lparr>error := ListFetchFailed\<rparr>)"

text \<open>Lines 298 to 317: what the handler does with the data of an ok response.\<close>

definition on_data :: "fetch_call \<Rightarrow> 'v list_data \<Rightarrow> 'v controller \<Rightarrow> 'v controller" where
  "on_data f d st =
     (case (case data_error d of None \<Rightarrow> None | Some e \<Rightarrow> if e = [] then None else Some e) of
        Some e \<Rightarrow>
          (if isInitial f then st\<lparr>error := ServerError e, videos := []\<rparr>
           else st\<lparr>error := ServerError e\<rparr>)
      | None \<Rightarrow>
          (let newVideos = (case data_list d of None \<Rightarrow> [] | Some l \<Rightarrow> l);
               currentPage = (case data_page d of
                                None \<Rightarrow> fetch_page f
                              | Some n \<Rightarrow> if n = 0 then fetch_page f else n);
               totalPages = (case data_totalPages d of
                               None \<Rightarrow> 1
                             | Some n \<Rightarrow> if n = 0 then 1 else n)
           in st\<lparr>videos := (if isInitial f then newVideos else videos st @ newVideos),
                 hasMore := (currentPage < totalPages)\<rparr>))"

text \<open>
  The rest of \<^verbatim>\<open>fetchVideos\<close>, run when request \<open>c\<close> settles. When the signal of the
  request has been aborted, \<^verbatim>\<open>fetch\<close> (or the reading of the body) rejects with an
  AbortError whatever the network did, and the catch block returns at once (line 321);
  otherwise the result decides between the body of the try block and the rest of the
  catch block. The finally block runs in every case. A number that names no pending
  request changes nothing.
\<close>

definition settle :: "nat \<Rightarrow> 'v fetch_result \<Rightarrow> 'v controller \<Rightarrow> 'v controller" where
  "settle c res st =
     (if c < length (fetches st) \<and> \<not> settled (fetches st ! c) then
        (let f = fetches st ! c;
             st1 = st\<lparr>fetches := (fetches st)[c := f\<lparr>settled := True\<rparr>]\<rparr>
         in if aborted f then finish f st1
            else (case res of
                    Data d \<Rightarrow> finish f (on_data f d st1)
                  | _ \<Rightarrow> finish f (fail f st1)))
      else st)"

text \<open>The two reset effects (lines 152 to 176); they differ in \<^verbatim>\<open>selectedView\<close> only,
  which is not part of this state.\<close>

definition reset :: "'v controller \<Rightarrow> 'v controller" where
  "reset st = st\<lparr>videos := [], hasMore := True, error := NoError, loading := False,
                 loadingMore := False, isFetchingRef := False\<rparr>"

text \<open>
  What can happen to the controller: the fetch effect runs for the values of a
  render, its cleanup runs, a request settles, a reset effect runs.
\<close>

datatype 'v event =
    Run fetch_params
  | Cleanup
  | Settle nat "'v fetch_result"
  | Reset

fun step :: "runtime_config \<Rightarrow> 'v controller \<Rightarrow> 'v event \<Rightarrow> 'v controller" where
  "step rc st (Run p) = fetchVideos rc p st"
| "step rc st Cleanup = abort_current st"
| "step rc st (Settle c res) = settle c res st"
| "step rc st Reset = reset st"

definition run :: "runtime_config \<Rightarrow> 'v event list \<Rightarrow> 'v controller \<Rightarrow> 'v controller" where
  "run rc es st = foldl (step rc) st es"

text \<open>What the page shows and what guards the next page load: everything but the
  bookkeeping of the requests.\<close>

definition committed :: "'v controller \<Rightarrow> 'v list \<times> bool \<times> bool \<times> error_text \<times> bool \<times> bool" where
  "committed st = (videos st, loading st, loadingMore st, error st, hasMore st, isFetchingRef st)"

section \<open>Notions used in the statements\<close>

text \<open>
  The authorization policy in the words of the specification: an unauthenticated
  caller is refused first, then a caller who is not in the user list, then a banned
  one; the administrator's name is exempt from the user list. A failure of one of the
  calls involved is its own outcome. The handlers are compared with it below.
\<close>

datatype gate = Denied err_msg | Failed | Granted string

definition authorization_check :: "'n request \<Rightarrow> gate" where
  "authorization_check request =
     (case getAuthInfoFromCookie request of
        Throws \<Rightarrow> Failed
      | Returns authInfo \<Rightarrow>
          (case (case authInfo of None \<Rightarrow> None | Some a \<Rightarrow> auth_username a) of
             None \<Rightarrow> Denied NotLoggedIn
           | Some name \<Rightarrow>
               if name = [] then Denied NotLoggedIn
               else
                 (case getConfig request of
                    Throws \<Rightarrow> Failed
                  | Returns config \<Rightarrow>
                      if ADMIN_USERNAME request = Some name then Granted name
                      else
                        (case find (\<lambda>u. username u = name) (Users config) of
                           None \<Rightarrow> Denied UserNotFound
                         | Some usr \<Rightarrow> if banned usr then Denied UserBanned else Granted name))))"

text \<open>The own property of a value that is not null, or undefined: what \<open>get_prop\<close>
  returns when it does not throw.\<close>

definition own_prop :: "'n json \<Rightarrow> string \<Rightarrow> 'n json option" where
  "own_prop v name = (case v of JObj kvs \<Rightarrow> map_of kvs name | _ \<Rightarrow> None)"

subsection \<open>Values for the examples\<close>

text \<open>
  The numbers of the examples are integers of small magnitude, which
  \<^verbatim>\<open>Number.prototype.toString\<close> writes in plain decimal; zero is the falsy one.
\<close>

fun decimal :: "nat \<Rightarrow> string" where
  "decimal n =
     (if n < 10 then [''0123456789'' ! n]
      else decimal (n div 10) @ [''0123456789'' ! (n mod 10)])"

declare decimal.simps [simp del]

definition small_integers :: "int numops" where
  "small_integers =
     \<lparr>nfalsy = (\<lambda>n. n = 0),
      nstr = (\<lambda>n. if n < 0 then ''-'' @ decimal (nat (- n)) else decimal (nat n))\<rparr>"

text \<open>A request of the user \<open>name\<close>, who is not the administrator, with a user list and
  a parsed body; and a store that holds nothing.\<close>

definition request_of :: "string \<Rightarrow> user list \<Rightarrow> int json option \<Rightarrow> int request" where
  "request_of name us b =
     \<lparr>getAuthInfoFromCookie = Returns (Some \<lparr>auth_username = Some name\<rparr>),
      getConfig = Returns \<lparr>Users = us\<rparr>,
      ADMIN_USERNAME = Some ''root'',
      request_json = Returns b\<rparr>"

definition empty_db :: "int db" where
  "empty_db = \<lparr>configs = Map.empty, broken = False\<rparr>"


text \<open>Whether \<^verbatim>\<open>fetchVideos\<close> gets past its two early returns (lines 262 to 271) and
  issues a request.\<close>

definition issues_request :: "runtime_config \<Rightarrow> fetch_params \<Rightarrow> bool" where
  "issues_request rc p =
     (\<not> (sourceType p = ''openlist'' \<and> \<not> OPENLIST_ENABLED rc) \<and>
      \<not> (sourceType p = ''emby'' \<and>
         (\<not> EMBY_ENABLED rc \<or> embyKey p = None \<or> embyKey p = Some [])))"

text \<open>The items of a response (\<^verbatim>\<open>data.list || []\<close>), and a response without a
  truthy \<^verbatim>\<open>error\<close>.\<close>

definition items :: "'v list_data \<Rightarrow> 'v list" where
  "items d = (case data_list d of None \<Rightarrow> [] | Some l \<Rightarrow> l)"

definition no_error :: "'v list_data \<Rightarrow> bool" where
  "no_error d = (data_error d = None \<or> data_error d = Some [])"

text \<open>
  Loading consecutive pages with nothing in between: the effect runs for page
  \<open>page p\<close>, its request (the \<open>c\<close>-th controller) brings the first response, the effect
  runs for the next page, and so on.
\<close>

fun load_pages :: "nat \<Rightarrow> fetch_params \<Rightarrow> 'v list_data list \<Rightarrow> 'v event list" where
  "load_pages c p [] = []"
| "load_pages c p (d # ds) =
     Run p # Settle c (Data d) # load_pages (Suc c) (p\<lparr>page := page p + 1\<rparr>) ds"

text \<open>At most the controller in \<^verbatim>\<open>abortControllerRef\<close> has a signal that is not
  aborted.\<close>

definition only_current_live :: "'v controller \<Rightarrow> bool" where
  "only_current_live st =
     (\<forall>c < length (fetches st). \<not> aborted (fetches st ! c) \<longrightarrow> abortControllerRef st = Some c)"

text \<open>For the examples: OpenList enabled, and the parameters of its page \<open>n\<close>.\<close>

definition openlist_only :: runtime_config where
  "openlist_only = \<lparr>OPENLIST_ENABLED = True, EMBY_ENABLED = False\<rparr>"

definition openlist_page :: "int \<Rightarrow> fetch_params" where
  "openlist_page n = \<lparr>sourceType = ''openlist'', embyKey = None, page = n, selectedView = ''all''\<rparr>"

definition page_of :: "string list \<Rightarrow> int \<Rightarrow> int \<Rightarrow> string list_data" where
  "page_of l n t = \<lparr>data_error = None, data_list = Some l, data_page = Some n,
                    data_totalPages = Some t\<rparr>"


section \<open>The authorization of the danmaku filter route\<close>

lemma GET_gate:
  "GET request d =
     (case authorization_check request of
        Denied m \<Rightarrow> (json_response 401 (ErrorBody m), d, [])
      | Failed \<Rightarrow> (json_response 500 (ErrorBody GetFailed), d, [])
      | Granted name \<Rightarrow> GET_load name d)"
  by (auto simp: GET_def authorization_check_def split: outcome.splits option.splits)

lemma POST_gate:
  "POST ops request d =
     (case authorization_check request of
        Denied m \<Rightarrow> (json_response 401 (ErrorBody m), d, [])
      | Failed \<Rightarrow> (json_response 500 (ErrorBody SaveFailed), d, [])
      | Granted name \<Rightarrow> POST_save ops request name d)"
  by (auto simp: POST_def authorization_check_def split: outcome.splits option.splits)

text \<open>
  In a user list without repeated names, the record that \<^verbatim>\<open>Users.find\<close> returns for a
  name is the only record with that name, so that "the user is present and banned"
  can be read off any record of that name.
\<close>

lemma find_distinct:
  assumes "distinct (map username us)" and "usr \<in> set us" and "username usr = name"
  shows "find (\<lambda>u. username u = name) us = Some usr"
  using assms by (induction us) (auto simp: image_iff)

text \<open>
  C1. A request of GET or POST whose session names a user other than the
  administrator, where the user list either has no record of that name or the record
  of that name (the one \<^verbatim>\<open>Users.find\<close> returns) is banned, is answered with
  status 401, with the same body by both handlers, the store is left as it was and no
  call of the store has been made. Both handlers are the same authorization check
  (not logged in, then user not found, then banned, the administrator exempt from the
  user list) followed by their own work.
\<close>

theorem unknown_or_banned_unauthorized:
  assumes "getAuthInfoFromCookie request = Returns (Some a)"
    and "auth_username a = Some name" and "name \<noteq> []"
    and "getConfig request = Returns config"
    and "ADMIN_USERNAME request \<noteq> Some name"
    and "find (\<lambda>u. username u = name) (Users config) = None \<or>
         (\<exists>usr. find (\<lambda>u. username u = name) (Users config) = Some usr \<and> banned usr)"
  shows "GET request d =
           (json_response 401
              (ErrorBody (case find (\<lambda>u. username u = name) (Users config) of
                            None \<Rightarrow> UserNotFound | Some usr \<Rightarrow> UserBanned)), d, []) \<and>
         POST ops request d =
           (json_response 401
              (ErrorBody (case find (\<lambda>u. username u = name) (Users config) of
                            None \<Rightarrow> UserNotFound | Some usr \<Rightarrow> UserBanned)), d, []) \<and>
         GET request d =
           (case authorization_check request of
              Denied m \<Rightarrow> (json_response 401 (ErrorBody m), d, [])
            | Failed \<Rightarrow> (json_response 500 (ErrorBody GetFailed), d, [])
            | Granted name \<Rightarrow> GET_load name d) \<and>
         POST ops request d =
           (case authorization_check request of
              Denied m \<Rightarrow> (json_response 401 (ErrorBody m), d, [])
            | Failed \<Rightarrow> (json_response 500 (ErrorBody SaveFailed), d, [])
            | Granted name \<Rightarrow> POST_save ops request name d)"
proof (intro conjI)
  show "GET request d =
           (json_response 401
              (ErrorBody (case find (\<lambda>u. username u = name) (Users config) of
                            None \<Rightarrow> UserNotFound | Some usr \<Rightarrow> UserBanned)), d, [])"
    using assms by (auto simp: GET_def)
  show "POST ops request d =
           (json_response 401
              (ErrorBody (case find (\<lambda>u. username u = name) (Users config) of
                            None \<Rightarrow> UserNotFound | Some usr \<Rightarrow> UserBanned)), d, [])"
    using assms by (auto simp: POST_def)
qed (rule GET_gate, rule POST_gate)

theorem unknown_or_banned_unauthorized_witness:
  "GET (request_of ''bob'' [\<lparr>username = ''bob'', banned = True\<rparr>] None) empty_db =
     (json_response 401 (ErrorBody UserBanned), empty_db, []) \<and>
   POST small_integers (request_of ''bob'' [\<lparr>username = ''bob'', banned = True\<rparr>] None) empty_db =
     (json_response 401 (ErrorBody UserBanned), empty_db, [])"
proof -
  let ?r = "request_of ''bob'' [\<lparr>username = ''bob'', banned = True\<rparr>] None"
  have h1: "getAuthInfoFromCookie ?r = Returns (Some \<lparr>auth_username = Some ''bob''\<rparr>)"
    and h2: "auth_username \<lparr>auth_username = Some ''bob''\<rparr> = Some ''bob''"
    and h3: "''bob'' \<noteq> []"
    and h4: "getConfig ?r = Returns \<lparr>Users = [\<lparr>username = ''bob'', banned = True\<rparr>]\<rparr>"
    and h5: "ADMIN_USERNAME ?r \<noteq> Some ''bob''"
    by (simp_all add: request_of_def)
  have h6: "find (\<lambda>u. username u = ''bob'') (Users \<lparr>Users = [\<lparr>username = ''bob'', banned = True\<rparr>]\<rparr>) = None \<or>
         (\<exists>usr. find (\<lambda>u. username u = ''bob'') (Users \<lparr>Users = [\<lparr>username = ''bob'', banned = True\<rparr>]\<rparr>) = Some usr \<and> banned usr)"
    by simp
  from unknown_or_banned_unauthorized[OF h1 h2 h3 h4 h5 h6, where d = empty_db and ops = small_integers]
  show ?thesis by simp
qed

section \<open>Validation of the body of a POST\<close>

lemma get_prop_own: "v \<noteq> JNull \<Longrightarrow> get_prop (Some v) name = Returns (own_prop v name)"
  by (cases v) (simp_all add: own_prop_def)

lemma get_prop_array:
  "get_prop b ''rules'' = Returns (Some (JArr rs)) \<Longrightarrow> \<exists>kvs. b = Some (JObj kvs)"
  by (cases "(b, ''rules'')" rule: get_prop.cases) auto

lemma snd_POST_save_malformed:
  assumes "request_json request = Returns b"
    and "\<forall>rs. get_prop b ''rules'' \<noteq> Returns (Some (JArr rs))"
  shows "POST_save ops request name d = (json_response 400 (ErrorBody BadConfigFormat), d, [])"
proof (cases "truthy ops b")
  case False
  then show ?thesis using assms by (simp add: POST_save_def)
next
  case True
  then obtain v where b: "b = Some v" and v: "v \<noteq> JNull"
    by (cases "(ops, b)" rule: truthy.cases) auto
  have "get_prop b ''rules'' = Returns (own_prop v ''rules'')"
    using b v by (simp add: get_prop_own)
  then show ?thesis using assms True
    by (auto simp: POST_save_def split: option.splits json.splits)
qed

text \<open>
  C2. When the value that \<^verbatim>\<open>request.json()\<close> gave is undefined, is null, or has no
  array as its \<^verbatim>\<open>rules\<close> property, a POST never calls
  \<^verbatim>\<open>setDanmakuFilterConfig\<close>: the store is left as it was and the handler made no
  call of the store at all. If the caller passes the authorization, the answer is the
  status 400 with the message of a malformed configuration.
\<close>

theorem malformed_body_rejected:
  assumes "request_json request = Returns b"
    and "b = None \<or> b = Some JNull \<or> (\<forall>rs. get_prop b ''rules'' \<noteq> Returns (Some (JArr rs)))"
  shows "snd (POST ops request d) = (d, []) \<and>
         (\<forall>name. authorization_check request = Granted name \<longrightarrow>
            POST ops request d = (json_response 400 (ErrorBody BadConfigFormat), d, []))"
proof -
  have "\<forall>rs. get_prop b ''rules'' \<noteq> Returns (Some (JArr rs))"
    using assms(2) by auto
  then have "POST_save ops request name d = (json_response 400 (ErrorBody BadConfigFormat), d, [])"
    for name
    using assms(1) by (rule snd_POST_save_malformed[rotated])
  then show ?thesis
    by (simp add: POST_gate split: gate.splits)
qed

theorem malformed_body_rejected_witness:
  "POST small_integers
     (request_of ''ann'' [\<lparr>username = ''ann'', banned = False\<rparr>]
        (Some (JObj [(''rules'', JStr ''none'')]))) empty_db =
     (json_response 400 (ErrorBody BadConfigFormat), empty_db, [])"
proof -
  let ?b = "Some (JObj [(''rules'', JStr ''none'')]) :: int json option"
  let ?r = "request_of ''ann'' [\<lparr>username = ''ann'', banned = False\<rparr>] ?b"
  have h1: "request_json ?r = Returns ?b"
    by (simp add: request_of_def)
  have h2: "?b = None \<or> ?b = Some JNull \<or> (\<forall>rs. get_prop ?b ''rules'' \<noteq> Returns (Some (JArr rs)))"
    by simp
  have g: "authorization_check ?r = Granted ''ann''"
    by (simp add: authorization_check_def request_of_def)
  from malformed_body_rejected[OF h1 h2, where d = empty_db and ops = small_integers] g
  show ?thesis by simp
qed

section \<open>Reading a configuration that was never stored\<close>

text \<open>
  C5. When the caller passes the authorization and the store returns null for the
  caller's name, GET answers with status 200 and the body \<^verbatim>\<open>{rules: []}\<close>; the
  store is read once and not changed.
\<close>

theorem no_config_gives_empty_rules:
  assumes "authorization_check request = Granted name"
    and "getDanmakuFilterConfig d name = Returns None"
  shows "GET request d = (json_response 200 (ConfigBody \<lparr>rules = []\<rparr>), d, [GetCall name])"
  using assms by (simp add: GET_gate GET_load_def)

theorem no_config_gives_empty_rules_witness:
  "GET (request_of ''ann'' [\<lparr>username = ''ann'', banned = False\<rparr>] None) empty_db =
     (json_response 200 (ConfigBody \<lparr>rules = []\<rparr>), empty_db, [GetCall ''ann''])"
proof -
  let ?r = "request_of ''ann'' [\<lparr>username = ''ann'', banned = False\<rparr>] None"
  have g: "authorization_check ?r = Granted ''ann''"
    by (simp add: authorization_check_def request_of_def)
  have n: "getDanmakuFilterConfig empty_db ''ann'' = Returns None"
    by (simp add: getDanmakuFilterConfig_def empty_db_def)
  show ?thesis by (rule no_config_gives_empty_rules[OF g n])
qed

section \<open>Normalization of the rules\<close>

lemma validate_rule_eq:
  assumes "r \<noteq> JNull"
    and "js_String_value ops (js_or ops (own_prop r ''keyword'') (Some (JStr []))) = Returns k"
  shows "validate_rule ops r =
           Returns \<lparr>keyword = k,
                    rtype = (if own_prop r ''type'' = Some (JStr ''regex'') then ''regex''
                             else ''normal''),
                    enabled = truthy ops (own_prop r ''enabled''),
                    rid = (if truthy ops (own_prop r ''id'') then own_prop r ''id'' else None)\<rparr>"
  using assms by (auto simp: validate_rule_def and_then_def get_prop_own js_or_def)

lemma validate_rule_throws:
  "validate_rule ops r = Throws \<longleftrightarrow>
     r = JNull \<or> js_String_value ops (js_or ops (own_prop r ''keyword'') (Some (JStr []))) = Throws"
  by (cases "r = JNull")
     (auto simp: validate_rule_def and_then_def get_prop_own split: outcome.splits)

lemma map_outcome_Returns:
  "map_outcome f xs = Returns ys \<longleftrightarrow>
     length ys = length xs \<and> (\<forall>i < length xs. f (xs ! i) = Returns (ys ! i))"
proof (induction xs arbitrary: ys)
  case Nil
  then show ?case by auto
next
  case (Cons x xs)
  show ?case
  proof (cases ys)
    case Nil
    then show ?thesis by (auto split: outcome.splits)
  next
    case (Cons y ys')
    then show ?thesis
      using Cons.IH[of ys'] by (auto simp: nth_Cons less_Suc_eq_0_disj split: outcome.splits nat.splits)
  qed
qed

lemma map_outcome_all:
  "(\<forall>x \<in> set xs. f x \<noteq> Throws) \<Longrightarrow> \<exists>ys. map_outcome f xs = Returns ys"
  by (induction xs) (auto split: outcome.splits)

lemma keyword_string_cases:
  assumes "\<forall>v. own_prop r ''keyword'' = Some v \<longrightarrow> js_String ops v \<noteq> None"
  shows "\<exists>k. js_String_value ops (js_or ops (own_prop r ''keyword'') (Some (JStr []))) = Returns k"
  using assms by (cases "own_prop r ''keyword''") (auto simp: js_String_value_def js_or_def)

lemma validate_rule_Returns:
  assumes "validate_rule ops r = Returns out"
  shows "r \<noteq> JNull"
    and "js_String_value ops (js_or ops (own_prop r ''keyword'') (Some (JStr []))) = Returns (keyword out)"
    and "rtype out = (if own_prop r ''type'' = Some (JStr ''regex'') then ''regex'' else ''normal'')"
    and "enabled out = truthy ops (own_prop r ''enabled'')"
    and "rid out = (if truthy ops (own_prop r ''id'') then own_prop r ''id'' else None)"
proof -
  show n: "r \<noteq> JNull"
    using assms by (auto simp: validate_rule_def and_then_def)
  obtain k where k: "js_String_value ops (js_or ops (own_prop r ''keyword'') (Some (JStr []))) = Returns k"
    using assms validate_rule_throws[of ops r] n
    by (cases "js_String_value ops (js_or ops (own_prop r ''keyword'') (Some (JStr [])))") auto
  note eq = validate_rule_eq[OF n k]
  show "js_String_value ops (js_or ops (own_prop r ''keyword'') (Some (JStr []))) = Returns (keyword out)"
    using eq assms k by auto
  show "rtype out = (if own_prop r ''type'' = Some (JStr ''regex'') then ''regex'' else ''normal'')"
    using eq assms by auto
  show "enabled out = truthy ops (own_prop r ''enabled'')"
    using eq assms by auto
  show "rid out = (if truthy ops (own_prop r ''id'') then own_prop r ''id'' else None)"
    using eq assms by auto
qed

lemma keyword_falsy_empty:
  assumes "js_String_value ops (js_or ops kw (Some (JStr []))) = Returns k"
  shows "(\<not> truthy ops kw \<longrightarrow> k = []) \<and> (\<forall>s. kw = Some (JStr s) \<longrightarrow> k = s)"
  using assms by (auto simp: js_or_def js_String_value_def split: if_splits)

text \<open>
  A keyword that is absent, null, a boolean, a number or a string can always be
  converted; so can an array or object in which no object has a property
  \<^verbatim>\<open>toString\<close>.
\<close>

lemma primitive_keyword_converts:
  "js_String ops JNull \<noteq> None" "js_String ops (JBool b) \<noteq> None"
  "js_String ops (JNum n) \<noteq> None" "js_String ops (JStr s) \<noteq> None"
  by simp_all

text \<open>
  C3, as the code has it. For every list of input rules none of which is null and
  whose keywords \<^verbatim>\<open>String\<close> can convert, the mapping returns a rule for each input
  rule, in order, and each is determined by its own input rule alone: the type is
  \<^verbatim>\<open>regex\<close> when the input type is exactly that string and \<^verbatim>\<open>normal\<close> otherwise;
  the keyword is \<^verbatim>\<open>String(keyword || '')\<close>, which is the empty string for a falsy
  keyword (absent, null, false, zero, empty) and the keyword itself for a string;
  enabled is the truthiness of the input; the id is the input id when that is truthy
  and undefined otherwise.
\<close>

theorem rules_normalized:
  assumes "\<forall>r \<in> set rs. r \<noteq> JNull \<and>
             (\<forall>v. own_prop r ''keyword'' = Some v \<longrightarrow> js_String ops v \<noteq> None)"
  shows "\<exists>outs. map_outcome (validate_rule ops) rs = Returns outs \<and> length outs = length rs \<and>
     (\<forall>i < length rs.
        rtype (outs ! i) =
          (if own_prop (rs ! i) ''type'' = Some (JStr ''regex'') then ''regex'' else ''normal'') \<and>
        js_String_value ops (js_or ops (own_prop (rs ! i) ''keyword'') (Some (JStr []))) =
          Returns (keyword (outs ! i)) \<and>
        (\<not> truthy ops (own_prop (rs ! i) ''keyword'') \<longrightarrow> keyword (outs ! i) = []) \<and>
        (\<forall>s. own_prop (rs ! i) ''keyword'' = Some (JStr s) \<longrightarrow> keyword (outs ! i) = s) \<and>
        enabled (outs ! i) = truthy ops (own_prop (rs ! i) ''enabled'') \<and>
        rid (outs ! i) =
          (if truthy ops (own_prop (rs ! i) ''id'') then own_prop (rs ! i) ''id'' else None))"
proof -
  have "\<forall>r \<in> set rs. validate_rule ops r \<noteq> Throws"
  proof
    fix r assume "r \<in> set rs"
    with assms have "r \<noteq> JNull"
      and "\<forall>v. own_prop r ''keyword'' = Some v \<longrightarrow> js_String ops v \<noteq> None"
      by auto
    then show "validate_rule ops r \<noteq> Throws"
      using keyword_string_cases[of r ops] by (auto simp: validate_rule_throws)
  qed
  then obtain outs where outs: "map_outcome (validate_rule ops) rs = Returns outs"
    using map_outcome_all by blast
  then have len: "length outs = length rs"
    and each: "\<And>i. i < length rs \<Longrightarrow> validate_rule ops (rs ! i) = Returns (outs ! i)"
    by (simp_all add: map_outcome_Returns)
  show ?thesis
  proof (intro exI conjI allI impI)
    show "map_outcome (validate_rule ops) rs = Returns outs" by (rule outs)
    show "length outs = length rs" by (rule len)
  next
    fix i assume i: "i < length rs"
    note v = validate_rule_Returns[OF each[OF i]]
    show "rtype (outs ! i) =
          (if own_prop (rs ! i) ''type'' = Some (JStr ''regex'') then ''regex'' else ''normal'')"
      by (rule v(3))
    show "js_String_value ops (js_or ops (own_prop (rs ! i) ''keyword'') (Some (JStr []))) =
          Returns (keyword (outs ! i))"
      by (rule v(2))
    show "enabled (outs ! i) = truthy ops (own_prop (rs ! i) ''enabled'')"
      by (rule v(4))
    show "rid (outs ! i) =
          (if truthy ops (own_prop (rs ! i) ''id'') then own_prop (rs ! i) ''id'' else None)"
      by (rule v(5))
    show "keyword (outs ! i) = []" if "\<not> truthy ops (own_prop (rs ! i) ''keyword'')"
      using keyword_falsy_empty[OF v(2)] that by simp
    show "keyword (outs ! i) = s" if "own_prop (rs ! i) ''keyword'' = Some (JStr s)" for s
      using keyword_falsy_empty[OF v(2)] that by simp
  qed
qed

theorem rules_normalized_witness:
  "map_outcome (validate_rule small_integers)
     [JObj [(''keyword'', JNum 0), (''type'', JStr ''regex''), (''enabled'', JNum 1),
            (''id'', JStr [])],
      JNum 7] =
   Returns [\<lparr>keyword = [], rtype = ''regex'', enabled = True, rid = None\<rparr>,
            \<lparr>keyword = [], rtype = ''normal'', enabled = False, rid = None\<rparr>]"
proof -
  let ?rs = "[JObj [(''keyword'', JNum 0), (''type'', JStr ''regex''), (''enabled'', JNum 1),
                    (''id'', JStr [])], JNum 7] :: int json list"
  have h: "\<forall>r \<in> set ?rs. r \<noteq> JNull \<and>
             (\<forall>v. own_prop r ''keyword'' = Some v \<longrightarrow> js_String small_integers v \<noteq> None)"
    by (simp add: own_prop_def)
  from rules_normalized[OF h] obtain outs
    where m: "map_outcome (validate_rule small_integers) ?rs = Returns outs"
    and len: "length outs = length ?rs"
    and each: "\<forall>i < length ?rs.
        rtype (outs ! i) =
          (if own_prop (?rs ! i) ''type'' = Some (JStr ''regex'') then ''regex'' else ''normal'') \<and>
        js_String_value small_integers
          (js_or small_integers (own_prop (?rs ! i) ''keyword'') (Some (JStr []))) =
          Returns (keyword (outs ! i)) \<and>
        (\<not> truthy small_integers (own_prop (?rs ! i) ''keyword'') \<longrightarrow> keyword (outs ! i) = []) \<and>
        (\<forall>s. own_prop (?rs ! i) ''keyword'' = Some (JStr s) \<longrightarrow> keyword (outs ! i) = s) \<and>
        enabled (outs ! i) = truthy small_integers (own_prop (?rs ! i) ''enabled'') \<and>
        rid (outs ! i) =
          (if truthy small_integers (own_prop (?rs ! i) ''id'') then own_prop (?rs ! i) ''id''
           else None)"
    by blast
  from len obtain x y where outs: "outs = [x, y]"
    by (cases outs; cases "tl outs"; cases "tl (tl outs)") auto
  from each[rule_format, of 0] have "x = \<lparr>keyword = [], rtype = ''regex'', enabled = True, rid = None\<rparr>"
    by (simp add: outs own_prop_def small_integers_def)
  moreover from each[rule_format, of 1]
  have "y = \<lparr>keyword = [], rtype = ''normal'', enabled = False, rid = None\<rparr>"
    by (simp add: outs own_prop_def small_integers_def)
  ultimately show ?thesis using m outs by simp
qed

text \<open>The claim C3 as it is written fails where the keyword is a truthy value that is
  not a string: the boolean true is stored as the keyword \<^verbatim>\<open>true\<close>, not as the empty
  string.\<close>

theorem keyword_true_counterexample:
  "validate_rule small_integers (JObj [(''keyword'', JBool True)]) =
     Returns \<lparr>keyword = ''true'', rtype = ''normal'', enabled = False, rid = None\<rparr>"
  by (simp add: validate_rule_def and_then_def js_or_def js_String_value_def)

text \<open>A rule that is null is not normalized at all: reading its keyword throws, and the
  POST ends in the catch block with status 500 and nothing stored.\<close>

lemma null_rule_throws:
  "POST small_integers
     (request_of ''ann'' [\<lparr>username = ''ann'', banned = False\<rparr>]
        (Some (JObj [(''rules'', JArr [JNull])]))) empty_db =
     (json_response 500 (ErrorBody SaveFailed), empty_db, [])"
  by (simp add: POST_def POST_save_def request_of_def validate_rule_def and_then_def)

lemma validate_rule_value:
  assumes "rtype r = ''normal'' \<or> rtype r = ''regex''"
    and "rid r = None \<or> truthy ops (rid r)"
  shows "validate_rule ops (rule_value r) = Returns r"
proof -
  have n: "rule_value r \<noteq> JNull" by (simp add: rule_value_def)
  have kw: "own_prop (rule_value r) ''keyword'' = Some (JStr (keyword r))"
    and ty: "own_prop (rule_value r) ''type'' = Some (JStr (rtype r))"
    and en: "own_prop (rule_value r) ''enabled'' = Some (JBool (enabled r))"
    and i: "own_prop (rule_value r) ''id'' = rid r"
    by (simp_all add: own_prop_def rule_value_def split: option.splits)
  have k: "js_String_value ops (js_or ops (own_prop (rule_value r) ''keyword'') (Some (JStr [])))
             = Returns (keyword r)"
    by (simp add: kw js_or_def js_String_value_def)
  show ?thesis
    using assms by (auto simp: validate_rule_eq[OF n k] ty en i)
qed

text \<open>
  C4. A list of rules in normalized form (the keyword a string, the type \<^verbatim>\<open>normal\<close>
  or \<^verbatim>\<open>regex\<close>, enabled a boolean, the id a non-empty string or undefined), given
  to the mapping of the POST handler again, comes back unchanged.
\<close>

theorem normalization_idempotent:
  assumes "\<forall>r \<in> set rs. (rtype r = ''normal'' \<or> rtype r = ''regex'') \<and>
             (rid r = None \<or> (\<exists>s. s \<noteq> [] \<and> rid r = Some (JStr s)))"
  shows "map_outcome (validate_rule ops) (map rule_value rs) = Returns rs"
proof -
  have "validate_rule ops (rule_value (rs ! i)) = Returns (rs ! i)" if "i < length rs" for i
  proof -
    have "rs ! i \<in> set rs" using that by simp
    with assms have "rtype (rs ! i) = ''normal'' \<or> rtype (rs ! i) = ''regex''"
      and "rid (rs ! i) = None \<or> truthy ops (rid (rs ! i))"
      by auto
    then show ?thesis by (rule validate_rule_value)
  qed
  then show ?thesis by (simp add: map_outcome_Returns)
qed

theorem normalization_idempotent_witness:
  "map_outcome (validate_rule small_integers)
     (map rule_value
        [\<lparr>keyword = ''ad'', rtype = ''regex'', enabled = True, rid = Some (JStr ''17'')\<rparr>,
         \<lparr>keyword = [], rtype = ''normal'', enabled = False, rid = None\<rparr>]) =
   Returns [\<lparr>keyword = ''ad'', rtype = ''regex'', enabled = True, rid = Some (JStr ''17'')\<rparr>,
            \<lparr>keyword = [], rtype = ''normal'', enabled = False, rid = None\<rparr>]"
  by (rule normalization_idempotent) simp

text \<open>More generally, whatever the mapping returned is a fixed point of it.\<close>

lemma validated_rules_fixed:
  assumes "map_outcome (validate_rule ops) rs = Returns outs"
  shows "map_outcome (validate_rule ops) (map rule_value outs) = Returns outs"
proof -
  have "validate_rule ops (rule_value (outs ! i)) = Returns (outs ! i)" if "i < length outs" for i
  proof -
    from assms that have "validate_rule ops (rs ! i) = Returns (outs ! i)"
      by (simp add: map_outcome_Returns)
    note v = validate_rule_Returns[OF this]
    show ?thesis
      by (rule validate_rule_value) (auto simp: v(3) v(5))
  qed
  then show ?thesis by (simp add: map_outcome_Returns)
qed

text \<open>
  C10. When a POST passes the authorization, its body has an array of rules, the
  mapping returns and the store works, the handler stores exactly the rules the
  mapping returned, one for each input rule, and the id of each stored rule is the
  input id when that is truthy and undefined when it is falsy (absent, null, false,
  the empty string or zero).
\<close>

theorem falsy_id_stored_undefined:
  assumes "authorization_check request = Granted name"
    and "request_json request = Returns b"
    and "get_prop b ''rules'' = Returns (Some (JArr rs))"
    and "map_outcome (validate_rule ops) rs = Returns outs"
    and "\<not> broken d"
  shows "POST ops request d =
           (json_response 200 SuccessBody, d\<lparr>configs := (configs d)(name \<mapsto> \<lparr>rules = outs\<rparr>)\<rparr>,
            [SetCall name \<lparr>rules = outs\<rparr>]) \<and>
         length outs = length rs \<and>
         (\<forall>i < length rs.
            rid (outs ! i) =
              (if truthy ops (own_prop (rs ! i) ''id'') then own_prop (rs ! i) ''id'' else None))"
proof (intro conjI allI impI)
  obtain kvs where b: "b = Some (JObj kvs)"
    using get_prop_array[OF assms(3)] by blast
  show "POST ops request d =
           (json_response 200 SuccessBody, d\<lparr>configs := (configs d)(name \<mapsto> \<lparr>rules = outs\<rparr>)\<rparr>,
            [SetCall name \<lparr>rules = outs\<rparr>])"
    using assms b
    by (simp add: POST_gate POST_save_def setDanmakuFilterConfig_def)
  show "length outs = length rs"
    using assms(4) by (simp add: map_outcome_Returns)
  fix i assume "i < length rs"
  then have "validate_rule ops (rs ! i) = Returns (outs ! i)"
    using assms(4) by (simp add: map_outcome_Returns)
  then show "rid (outs ! i) =
              (if truthy ops (own_prop (rs ! i) ''id'') then own_prop (rs ! i) ''id'' else None)"
    by (rule validate_rule_Returns(5))
qed

theorem falsy_id_stored_undefined_witness:
  "POST small_integers
     (request_of ''ann'' [\<lparr>username = ''ann'', banned = False\<rparr>]
        (Some (JObj [(''rules'',
           JArr [JObj [(''keyword'', JStr ''ad''), (''id'', JNum 0)],
                 JObj [(''keyword'', JStr ''spam''), (''id'', JStr ''r1'')]])]))) empty_db =
     (json_response 200 SuccessBody,
      empty_db\<lparr>configs := (configs empty_db)(''ann'' \<mapsto>
        \<lparr>rules = [\<lparr>keyword = ''ad'', rtype = ''normal'', enabled = False, rid = None\<rparr>,
                  \<lparr>keyword = ''spam'', rtype = ''normal'', enabled = False,
                   rid = Some (JStr ''r1'')\<rparr>]\<rparr>)\<rparr>,
      [SetCall ''ann''
        \<lparr>rules = [\<lparr>keyword = ''ad'', rtype = ''normal'', enabled = False, rid = None\<rparr>,
                  \<lparr>keyword = ''spam'', rtype = ''normal'', enabled = False,
                   rid = Some (JStr ''r1'')\<rparr>]\<rparr>])"
proof -
  let ?rs = "[JObj [(''keyword'', JStr ''ad''), (''id'', JNum 0)],
              JObj [(''keyword'', JStr ''spam''), (''id'', JStr ''r1'')]] :: int json list"
  let ?b = "Some (JObj [(''rules'', JArr ?rs)])"
  let ?r = "request_of ''ann'' [\<lparr>username = ''ann'', banned = False\<rparr>] ?b"
  let ?outs = "[\<lparr>keyword = ''ad'', rtype = ''normal'', enabled = False, rid = None\<rparr>,
                \<lparr>keyword = ''spam'', rtype = ''normal'', enabled = False,
                 rid = Some (JStr ''r1'')\<rparr>] :: int filter_rule list"
  have g: "authorization_check ?r = Granted ''ann''"
    by (simp add: authorization_check_def request_of_def)
  have j: "request_json ?r = Returns ?b"
    by (simp add: request_of_def)
  have a: "get_prop ?b ''rules'' = Returns (Some (JArr ?rs))"
    by simp
  have m: "map_outcome (validate_rule small_integers) ?rs = Returns ?outs"
    by (simp add: validate_rule_def and_then_def js_or_def js_String_value_def small_integers_def)
  have w: "\<not> broken empty_db"
    by (simp add: empty_db_def)
  from falsy_id_stored_undefined[OF g j a m w] show ?thesis by simp
qed


section \<open>The source parameter\<close>

lemma split_on_none: "c \<notin> set s \<Longrightarrow> split_on c s = [s]"
  by (induction s) auto

lemma split_on_first: "c \<notin> set a \<Longrightarrow> split_on c (a @ c # k) = a # split_on c k"
  by (induction a) auto

text \<open>
  C9, as the code has it. The page writes the colon form \<^verbatim>\<open>emby:<key>\<close> only when
  more than one Emby source is on offer. In that case, for every non-empty key without
  a colon, the value written for the selection of Emby with that key is
  \<^verbatim>\<open>emby:<key>\<close>, and \<^verbatim>\<open>parseSourceParam\<close> reads it back as the source type
  \<^verbatim>\<open>emby\<close> with that key.
\<close>

theorem emby_key_round_trip:
  assumes "k \<noteq> []" and "CHR '':'' \<notin> set k" and "length embySourceOptions > 1"
  shows "source_param ''emby'' (Some k) embySourceOptions = ''emby:'' @ k \<and>
         parseSourceParam (Some (source_param ''emby'' (Some k) embySourceOptions)) =
           \<lparr>parsed_sourceType = ''emby'', parsed_embyKey = Some k\<rparr>"
proof -
  have "split_on CHR '':'' (''emby'' @ CHR '':'' # k) = ''emby'' # split_on CHR '':'' k"
    by (rule split_on_first) simp
  then have "split_on CHR '':'' (''emby:'' @ k) = [''emby'', k]"
    using assms(2) by (simp add: split_on_none)
  then show ?thesis
    using assms by (simp add: source_param_def parseSourceParam_def)
qed

theorem emby_key_round_trip_witness:
  "parseSourceParam (Some (source_param ''emby'' (Some ''e1'')
      [\<lparr>option_key = ''e1'', option_name = ''Home''\<rparr>, \<lparr>option_key = ''e2'', option_name = ''Work''\<rparr>])) =
     \<lparr>parsed_sourceType = ''emby'', parsed_embyKey = Some ''e1''\<rparr>"
proof -
  have "''e1'' \<noteq> []" and "CHR '':'' \<notin> set ''e1''"
    and "length [\<lparr>option_key = ''e1'', option_name = ''Home''\<rparr>, \<lparr>option_key = ''e2'', option_name = ''Work''\<rparr>] > 1"
    by simp_all
  from emby_key_round_trip[OF this] show ?thesis by (rule conjunct2)
qed

text \<open>The claim C9 as it is written fails when a single Emby source is on offer: the
  value written is \<^verbatim>\<open>emby\<close> alone, and reading it back gives no key.\<close>

theorem single_source_drops_key_counterexample:
  "parseSourceParam (Some (source_param ''emby'' (Some ''e1'')
      [\<lparr>option_key = ''e1'', option_name = ''Home''\<rparr>])) =
     \<lparr>parsed_sourceType = ''emby'', parsed_embyKey = None\<rparr>"
  by (simp add: source_param_def parseSourceParam_def)

section \<open>Cancellation of list fetches\<close>

lemma abort_current_simps [simp]:
  "length (fetches (abort_current st)) = length (fetches st)"
  "abortControllerRef (abort_current st) = abortControllerRef st"
  "committed (abort_current st) = committed st"
  "videos (abort_current st) = videos st"
  by (auto simp: abort_current_def committed_def split: option.splits)

lemma abort_current_mono:
  "c < length (fetches st) \<Longrightarrow> aborted (fetches st ! c) \<Longrightarrow> aborted (fetches (abort_current st) ! c)"
  by (auto simp: abort_current_def nth_list_update split: option.splits)

lemma abort_current_all:
  "only_current_live st \<Longrightarrow> c < length (fetches st) \<Longrightarrow> aborted (fetches (abort_current st) ! c)"
  by (auto simp: abort_current_def only_current_live_def nth_list_update split: option.splits)

lemma fetchVideos_length: "length (fetches st) \<le> length (fetches (fetchVideos rc p st))"
  by (simp add: fetchVideos_def Let_def)

lemma fetchVideos_old:
  "c < length (fetches st) \<Longrightarrow>
   fetches (fetchVideos rc p st) ! c = fetches (abort_current st) ! c"
  by (simp add: fetchVideos_def Let_def nth_append)

lemma fetchVideos_aborts:
  "only_current_live st \<Longrightarrow> c < length (fetches st) \<Longrightarrow> aborted (fetches (fetchVideos rc p st) ! c)"
  by (simp add: fetchVideos_old abort_current_all)

lemma fetchVideos_live: "only_current_live st \<Longrightarrow> only_current_live (fetchVideos rc p st)"
  unfolding only_current_live_def
proof (intro allI impI)
  fix c
  assume inv: "\<forall>c<length (fetches st). \<not> aborted (fetches st ! c) \<longrightarrow> abortControllerRef st = Some c"
    and c: "c < length (fetches (fetchVideos rc p st))"
    and live: "\<not> aborted (fetches (fetchVideos rc p st) ! c)"
  have old: "\<not> c < length (fetches st)"
    using fetchVideos_aborts[of st c rc p] inv live by (auto simp: only_current_live_def)
  with c show "abortControllerRef (fetchVideos rc p st) = Some c"
    by (auto simp: fetchVideos_def Let_def split: if_splits)
qed

lemma settle_fetches:
  "length (fetches (settle c res st)) = length (fetches st)"
  "abortControllerRef (settle c res st) = abortControllerRef st"
  "i < length (fetches st) \<Longrightarrow> aborted (fetches (settle c res st) ! i) = aborted (fetches st ! i)"
  by (auto simp: settle_def Let_def finish_def fail_def on_data_def nth_list_update
           split: fetch_result.splits option.splits)

lemma settle_live: "only_current_live st \<Longrightarrow> only_current_live (settle c res st)"
  by (simp add: only_current_live_def settle_fetches)

lemma settle_aborted:
  "c < length (fetches st) \<Longrightarrow> aborted (fetches st ! c) \<Longrightarrow> committed (settle c res st) = committed st"
  by (simp add: settle_def Let_def committed_def finish_def)

lemma abort_current_live: "only_current_live st \<Longrightarrow> only_current_live (abort_current st)"
  by (auto simp: only_current_live_def abort_current_def nth_list_update split: option.splits)

lemma reset_live: "only_current_live st \<Longrightarrow> only_current_live (reset st)"
  by (simp add: only_current_live_def reset_def)

lemma step_live: "only_current_live st \<Longrightarrow> only_current_live (step rc st e)"
  by (cases e) (simp_all add: fetchVideos_live settle_live abort_current_live reset_live)

lemma step_length: "length (fetches st) \<le> length (fetches (step rc st e))"
  by (cases e) (simp_all add: fetchVideos_length settle_fetches reset_def)

lemma step_mono:
  assumes "c < length (fetches st)" and "aborted (fetches st ! c)"
  shows "aborted (fetches (step rc st e) ! c)"
  using assms
  by (cases e) (simp_all add: fetchVideos_old abort_current_mono settle_fetches reset_def)

lemma run_append: "run rc (es @ fs) st = run rc fs (run rc es st)"
  by (simp add: run_def)

lemma run_Cons: "run rc (e # es) st = run rc es (step rc st e)"
  by (simp add: run_def)

lemma run_live: "only_current_live st \<Longrightarrow> only_current_live (run rc es st)"
  by (induction es arbitrary: st) (simp_all add: run_def step_live)

lemma run_mono:
  "c < length (fetches st) \<Longrightarrow> aborted (fetches st ! c) \<Longrightarrow>
   c < length (fetches (run rc es st)) \<and> aborted (fetches (run rc es st) ! c)"
proof (induction es arbitrary: st)
  case Nil
  then show ?case by (simp add: run_def)
next
  case (Cons e es)
  have "c < length (fetches (step rc st e))"
    using Cons.prems(1) step_length[of st rc e] by simp
  moreover have "aborted (fetches (step rc st e) ! c)"
    using Cons.prems by (rule step_mono)
  ultimately show ?case
    using Cons.IH by (simp add: run_Cons)
qed

lemma initial_live: "only_current_live initial"
  by (simp add: only_current_live_def initial_def)

text \<open>
  C6. Take any history of the controller from its initial state, and a request \<open>c\<close>
  issued in it. When the fetch effect runs again, whatever its parameters, the signal
  of \<open>c\<close> is aborted by that run; it stays aborted through everything that follows;
  and when \<open>c\<close> settles afterwards, with whatever result and however late, nothing is
  committed: the videos, the loading flags, the error, \<^verbatim>\<open>hasMore\<close> and the fetching
  flag are what they were. So only the request of the latest run can commit.
\<close>

theorem stale_fetch_never_commits:
  assumes "c < length (fetches (run rc es1 initial))"
  shows "aborted (fetches (fetchVideos rc p (run rc es1 initial)) ! c) \<and>
         aborted (fetches (run rc (es1 @ Run p # es2) initial) ! c) \<and>
         committed (settle c res (run rc (es1 @ Run p # es2) initial)) =
           committed (run rc (es1 @ Run p # es2) initial)"
proof -
  let ?s1 = "run rc es1 initial"
  let ?s2 = "fetchVideos rc p ?s1"
  have live: "only_current_live ?s1"
    by (rule run_live[OF initial_live])
  have a: "aborted (fetches ?s2 ! c)"
    using live assms by (rule fetchVideos_aborts)
  have l: "c < length (fetches ?s2)"
    using assms fetchVideos_length[of ?s1 rc p] by simp
  have r: "run rc (es1 @ Run p # es2) initial = run rc es2 ?s2"
    by (simp add: run_append run_Cons)
  from run_mono[OF l a, of rc es2]
  have "c < length (fetches (run rc es2 ?s2))" and "aborted (fetches (run rc es2 ?s2) ! c)"
    by simp_all
  then show ?thesis
    using a by (simp add: r settle_aborted)
qed

lemmas eval_defs = run_def fetchVideos_def abort_current_def settle_def finish_def fail_def
  on_data_def initial_def committed_def openlist_only_def openlist_page_def page_of_def Let_def

theorem stale_fetch_never_commits_witness:
  "committed (settle 0 (Data (page_of [''old''] 1 1))
      (run openlist_only [Run (openlist_page 1), Run (openlist_page 1)] initial)) =
     ([], True, False, NoError, True, True) \<and>
   committed (settle 1 (Data (page_of [''new''] 1 1))
      (settle 0 (Data (page_of [''old''] 1 1))
         (run openlist_only [Run (openlist_page 1), Run (openlist_page 1)] initial))) =
     ([''new''], False, False, NoError, False, False)"
proof -
  have h: "0 < length (fetches (run openlist_only [Run (openlist_page 1)] (initial :: string controller)))"
    by (simp add: eval_defs)
  from stale_fetch_never_commits[OF h, of "openlist_page 1" "[]" "Data (page_of [''old''] 1 1)"]
  have "committed (settle 0 (Data (page_of [''old''] 1 1))
          (run openlist_only [Run (openlist_page 1), Run (openlist_page 1)] initial)) =
        committed (run openlist_only [Run (openlist_page 1), Run (openlist_page 1)] initial)"
    by simp
  then show ?thesis
    by (simp add: eval_defs)
qed

section \<open>Pagination\<close>

text \<open>
  C7, as the code has it. When a request that is neither aborted nor settled brings
  data without an error, \<^verbatim>\<open>hasMore\<close> becomes the comparison of the current page
  with the total: the current page is the page the server reports, or the requested
  page when the server reports none or reports 0; the total is the total the server
  reports, or 1 when it reports none or 0. In particular, when the server reports a
  page and a total that are both not 0, \<^verbatim>\<open>hasMore\<close> is true exactly when the
  reported page is less than the reported total.
\<close>

theorem hasMore_compares_pages:
  assumes "c < length (fetches st)" and "\<not> settled (fetches st ! c)"
    and "\<not> aborted (fetches st ! c)" and "no_error d"
  shows "hasMore (settle c (Data d) st) =
           ((case data_page d of
               None \<Rightarrow> fetch_page (fetches st ! c)
             | Some n \<Rightarrow> if n = 0 then fetch_page (fetches st ! c) else n)
            < (case data_totalPages d of None \<Rightarrow> 1 | Some n \<Rightarrow> if n = 0 then 1 else n)) \<and>
         (\<forall>n t. data_page d = Some n \<and> n \<noteq> 0 \<and> data_totalPages d = Some t \<and> t \<noteq> 0 \<longrightarrow>
            hasMore (settle c (Data d) st) = (n < t))"
  using assms
  by (auto simp: settle_def Let_def finish_def on_data_def no_error_def split: option.splits)

theorem hasMore_compares_pages_witness:
  "hasMore (settle 0 (Data (page_of [''a''] 1 3)) (fetchVideos openlist_only (openlist_page 1) initial)) \<and>
   \<not> hasMore (settle 0 (Data (page_of [''a''] 3 3)) (fetchVideos openlist_only (openlist_page 3) initial))"
proof -
  let ?s1 = "fetchVideos openlist_only (openlist_page 1) (initial :: string controller)"
  let ?s3 = "fetchVideos openlist_only (openlist_page 3) (initial :: string controller)"
  have h1: "0 < length (fetches ?s1)" "\<not> settled (fetches ?s1 ! 0)" "\<not> aborted (fetches ?s1 ! 0)"
    and h3: "0 < length (fetches ?s3)" "\<not> settled (fetches ?s3 ! 0)" "\<not> aborted (fetches ?s3 ! 0)"
    and e1: "no_error (page_of [''a''] 1 3)" and e3: "no_error (page_of [''a''] 3 3)"
    by (simp_all add: eval_defs no_error_def)
  from hasMore_compares_pages[OF h1 e1] hasMore_compares_pages[OF h3 e3]
  show ?thesis by (simp add: page_of_def)
qed

text \<open>The claim C7 as it is written fails when the server reports the page 0: for the
  reported page 0 of 1 page in total, requested as page 1, \<^verbatim>\<open>hasMore\<close> becomes false
  although 0 is less than 1.\<close>

theorem reported_page_zero_counterexample:
  "\<not> hasMore (settle 0 (Data (page_of [''a''] 0 1))
                (fetchVideos openlist_only (openlist_page 1) initial)) \<and> (0::int) < 1"
  by (simp add: eval_defs)

lemma fetch_then_settle:
  assumes "issues_request rc p" and "no_error d"
  shows "videos (settle (length (fetches st)) (Data d) (fetchVideos rc p st)) =
           (if page p = 1 then items d else videos st @ items d)"
    and "length (fetches (settle (length (fetches st)) (Data d) (fetchVideos rc p st))) =
           Suc (length (fetches st))"
  using assms
  by (auto simp: issues_request_def no_error_def fetchVideos_def settle_def Let_def finish_def
        on_data_def items_def nth_append split: option.splits)

lemma load_pages_append:
  assumes "issues_request rc p" and "\<forall>d \<in> set ds. no_error d" and "1 < page p"
  shows "videos (run rc (load_pages (length (fetches st)) p ds) st) =
           videos st @ concat (map items ds)"
  using assms
proof (induction ds arbitrary: st p)
  case Nil
  then show ?case by (simp add: run_def)
next
  case (Cons d ds)
  let ?st = "settle (length (fetches st)) (Data d) (fetchVideos rc p st)"
  let ?p = "p\<lparr>page := page p + 1\<rparr>"
  have d: "no_error d" using Cons.prems by simp
  have v: "videos ?st = videos st @ items d"
    using fetch_then_settle(1)[OF Cons.prems(1) d, of st] Cons.prems(3) by simp
  have l: "length (fetches ?st) = Suc (length (fetches st))"
    by (rule fetch_then_settle(2)[OF Cons.prems(1) d])
  have "issues_request rc ?p"
    using Cons.prems(1) by (simp add: issues_request_def)
  moreover have "\<forall>d \<in> set ds. no_error d" using Cons.prems by simp
  moreover have "1 < page ?p" using Cons.prems(3) by simp
  ultimately have "videos (run rc (load_pages (length (fetches ?st)) ?p ds) ?st) =
           videos ?st @ concat (map items ds)"
    by (rule Cons.IH)
  then show ?case
    by (simp add: run_Cons l v)
qed

text \<open>
  C8. Let consecutive pages be loaded with nothing in between, each request issued
  and each response without an error. When the first of them is page 1, the
  accumulated list is afterwards the items of these responses in order, one after the
  other, and its length is the sum of their lengths: the response for page 1 replaced
  what was there. When the first of them is a later page, the items of the responses
  are appended to what was there.
\<close>

theorem pages_accumulate:
  assumes "issues_request rc p" and "no_error d" and "\<forall>d \<in> set ds. no_error d"
  shows "(page p = 1 \<longrightarrow>
            videos (run rc (load_pages (length (fetches st)) p (d # ds)) st) =
              concat (map items (d # ds)) \<and>
            length (videos (run rc (load_pages (length (fetches st)) p (d # ds)) st)) =
              sum_list (map (\<lambda>d. length (items d)) (d # ds))) \<and>
         (1 < page p \<longrightarrow>
            videos (run rc (load_pages (length (fetches st)) p (d # ds)) st) =
              videos st @ concat (map items (d # ds)))"
proof (intro conjI impI)
  assume one: "page p = 1"
  let ?st = "settle (length (fetches st)) (Data d) (fetchVideos rc p st)"
  let ?p = "p\<lparr>page := page p + 1\<rparr>"
  have v: "videos ?st = items d"
    using fetch_then_settle(1)[OF assms(1,2), of st] one by simp
  have l: "length (fetches ?st) = Suc (length (fetches st))"
    by (rule fetch_then_settle(2)[OF assms(1,2)])
  have "issues_request rc ?p"
    using assms(1) by (simp add: issues_request_def)
  moreover have "1 < page ?p" using one by simp
  ultimately have "videos (run rc (load_pages (length (fetches ?st)) ?p ds) ?st) =
           videos ?st @ concat (map items ds)"
    using assms(3) by (intro load_pages_append)
  then show all: "videos (run rc (load_pages (length (fetches st)) p (d # ds)) st) =
              concat (map items (d # ds))"
    by (simp add: run_Cons l v)
  show "length (videos (run rc (load_pages (length (fetches st)) p (d # ds)) st)) =
              sum_list (map (\<lambda>d. length (items d)) (d # ds))"
    by (simp only: all length_concat map_map comp_def)
next
  assume "1 < page p"
  moreover have "\<forall>x \<in> set (d # ds). no_error x" using assms by simp
  ultimately show "videos (run rc (load_pages (length (fetches st)) p (d # ds)) st) =
              videos st @ concat (map items (d # ds))"
    using assms(1) by (intro load_pages_append)
qed

theorem pages_accumulate_witness:
  "videos (run openlist_only
      (load_pages 0 (openlist_page 1) [page_of [''a'', ''b''] 1 3, page_of [''c''] 2 3, page_of [''d''] 3 3])
      initial) = [''a'', ''b'', ''c'', ''d'']"
proof -
  have i: "issues_request openlist_only (openlist_page 1)"
    by (simp add: issues_request_def openlist_only_def openlist_page_def)
  have e: "no_error (page_of [''a'', ''b''] 1 3)"
    "\<forall>d \<in> set [page_of [''c''] 2 3, page_of [''d''] 3 3]. no_error d"
    by (simp_all add: no_error_def page_of_def)
  have p: "page (openlist_page 1) = 1"
    by (simp add: openlist_page_def)
  from pages_accumulate[OF i e, of "initial"] p
  show ?thesis by (simp add: initial_def items_def page_of_def)
qed

end
